theory Spec2Isabelle
  imports Complex_Main "HOL-Library.Product_Lexorder" "HOL-Library.Sublist"
begin

section \<open>JavaScript strings\<close>

text \<open>
  A string is a list of code units; \<^typ>\<open>char\<close> covers the code units 0 to 255.
  \<open>String.prototype.trim\<close> strips white space and line terminators from both ends; in
  this range these are TAB, LF, VT, FF, CR, SPACE and NBSP.
\<close>

definition isWhiteSpace :: "char \<Rightarrow> bool" where
  "isWhiteSpace c = (of_char c \<in> {9, 10, 11, 12, 13, 32, 160 :: nat})"

definition trim :: "string \<Rightarrow> string" where
  "trim s = rev (dropWhile isWhiteSpace (rev (dropWhile isWhiteSpace s)))"

text \<open>
  \<open>toLowerCase\<close> on the same range: A to Z and the accented capitals 192 to 222
  (without the multiplication sign 215) move up by 32, every other code unit stays.
\<close>

definition toLowerCase_char :: "char \<Rightarrow> char" where
  "toLowerCase_char c =
     (let n = (of_char c :: nat) in
      if (65 \<le> n \<and> n \<le> 90) \<or> (192 \<le> n \<and> n \<le> 222 \<and> n \<noteq> 215)
      then char_of (n + 32) else c)"

definition toLowerCase :: "string \<Rightarrow> string" where
  "toLowerCase s = map toLowerCase_char s"

text \<open>\<open>Array.prototype.includes\<close> on strings is exact equality with some element.\<close>

definition includes_array :: "string list \<Rightarrow> string \<Rightarrow> bool" where
  "includes_array xs x = (x \<in> set xs)"

text \<open>
  \<open>Array.prototype.filter\<close> with a callback that receives the element and its index.
  It builds a new array and keeps the order of the elements it retains.
\<close>

definition filter_index :: "('a \<Rightarrow> nat \<Rightarrow> bool) \<Rightarrow> 'a list \<Rightarrow> 'a list" where
  "filter_index p xs = map fst (filter (\<lambda>(x, i). p x i) (zip xs [0..<length xs]))"


section \<open>Array objects\<close>

text \<open>
  Arrays are objects: a state variable holds a reference, and two references may name the
  same array. The store lists the arrays allocated so far; the array at address \<open>a\<close> is
  the \<open>a\<close>-th entry. An array literal with a spread and \<open>filter\<close> both allocate.
\<close>

type_synonym ref = nat
type_synonym heap = "string list list"

definition deref :: "heap \<Rightarrow> ref \<Rightarrow> string list" where
  "deref h r = h ! r"

definition alloc :: "string list \<Rightarrow> heap \<Rightarrow> ref \<times> heap" where
  "alloc xs h = (length h, h @ [xs])"


section \<open>Values exchanged with the backend\<close>

text \<open>
  The interfaces of \<open>types/index.ts\<close>. A field marked optional is an option. Numbers
  are exact: \<open>match_score\<close> is a rational, identifiers and counts are integers and naturals;
  NaN and the infinities have no counterpart. The field \<open>id\<close> is \<open>recipe_id\<close> here.
\<close>

record Recipe =
  recipe_id :: int
  title :: string
  description :: string
  ingredients :: "string list"
  instructions :: "string list"
  prep_time :: string
  cook_time :: string
  servings :: int
  difficulty :: string
  cuisine :: string
  source :: "string option"
  match_score :: "rat option"
  matched_ingredients :: "nat option"

record AnalysisResult =
  success :: bool
  caption :: string
  ingredients :: "string list"
  confidence :: rat
  error :: "string option"

record RecipeResponse =
  success :: bool
  recipes :: "Recipe list"
  total :: int


section \<open>The API service\<close>

text \<open>
  What a function call ends with: a returned value or a thrown one. A thrown value is an
  \<open>Error\<close> object with its message, or something that is not an \<open>Error\<close>.
\<close>

datatype thrown = Error string | NonError

datatype 'a js_result = Return 'a | Throw thrown

text \<open>
  What \<open>api.post\<close> ends with: the response of a successful request, an Axios error that
  carries a response (with the \<open>detail\<close> of its body, when there is one), or any other
  failure. The body of an error response is an object, as the backend sends it. On a
  \<open>null\<close> body, which has no counterpart here, reading \<open>detail\<close> throws a
  \<open>TypeError\<close> from the \<open>catch\<close> block: also an \<open>Error\<close> with a non-empty message.
\<close>

datatype 'a axios_outcome = Response 'a | AxiosErrorResponse "string option" | OtherFailure

text \<open>\<open>a || b\<close> for a left operand that is a string or undefined: both \<open>undefined\<close> and
  the empty string are falsy.\<close>

definition js_or :: "string option \<Rightarrow> string \<Rightarrow> string" where
  "js_or a b = (case a of None \<Rightarrow> b | Some s \<Rightarrow> if s = [] then b else s)"

definition generateRecipes ::
  "(string list \<Rightarrow> RecipeResponse axios_outcome) \<Rightarrow> string list \<Rightarrow> RecipeResponse js_result" where
  "generateRecipes post ings =
     (case post ings of
        Response d \<Rightarrow> Return d
      | AxiosErrorResponse detail \<Rightarrow> Throw (Error (js_or detail ''Failed to generate recipes''))
      | OtherFailure \<Rightarrow> Throw (Error ''Network error occurred''))"


section \<open>The App component\<close>

text \<open>The views \<open>'upload'\<close>, \<open>'ingredients'\<close> and \<open>'recipes'\<close>.\<close>

datatype AppState = Upload | Ingredients | Recipes

datatype BackendStatus = Checking | Online | Offline

record App =
  currentState :: AppState
  analysisResult :: "AnalysisResult option"
  recipes :: "Recipe list"
  isLoading :: bool
  error :: "string option"
  backendStatus :: BackendStatus

definition initialApp :: App where
  "initialApp = \<lparr>currentState = Upload, analysisResult = None, App.recipes = [],
     isLoading = False, App.error = None, backendStatus = Checking\<rparr>"

text \<open>
  \<open>handleGenerateRecipes\<close>, with the steps of the source in their order: the two setters
  before the \<open>try\<close>, the body or the \<open>catch\<close> clause, then \<open>finally\<close>. \<open>post\<close> stands
  for the backend's answer to the request.
\<close>

definition handleGenerateRecipes ::
  "(string list \<Rightarrow> RecipeResponse axios_outcome) \<Rightarrow> string list \<Rightarrow> App \<Rightarrow> App" where
  "handleGenerateRecipes post ings s =
     (let s1 = s\<lparr>isLoading := True\<rparr>;
          s2 = s1\<lparr>App.error := None\<rparr>;
          s3 = (case generateRecipes post ings of
                  Return result \<Rightarrow>
                    if RecipeResponse.success result
                    then s2\<lparr>App.recipes := RecipeResponse.recipes result, currentState := Recipes\<rparr>
                    else s2\<lparr>App.error := Some ''Failed to generate recipes''\<rparr>
                | Throw e \<Rightarrow>
                    s2\<lparr>App.error := Some (case e of Error message \<Rightarrow> message
                                                   | NonError \<Rightarrow> ''An error occurred'')\<rparr>)
      in s3\<lparr>isLoading := False\<rparr>)"

definition handleStartOver :: "App \<Rightarrow> App" where
  "handleStartOver s =
     s\<lparr>currentState := Upload, analysisResult := None, App.recipes := [], App.error := None\<rparr>"

definition handleBackToIngredients :: "App \<Rightarrow> App" where
  "handleBackToIngredients s =
     s\<lparr>currentState := Ingredients, App.recipes := [], App.error := None\<rparr>"


section \<open>The RecipeCard and RecipesList components\<close>

text \<open>
  The value of \<open>a && b\<close> in JSX for an optional number \<open>a\<close>: \<open>undefined\<close> when \<open>a\<close> is
  absent, the number itself when it is \<open>0\<close>, and \<open>b\<close> otherwise. \<open>b\<close> is evaluated only
  in the last case and may read \<open>a\<close>.
\<close>

datatype 'a jsx = Undefined | Zero | Element 'a

definition js_and :: "'n::zero option \<Rightarrow> ('n \<Rightarrow> 'a) \<Rightarrow> 'a jsx" where
  "js_and a b = (case a of None \<Rightarrow> Undefined | Some x \<Rightarrow> if x = 0 then Zero else Element (b x))"

text \<open>
  What React puts on the page for such a child: nothing for \<open>undefined\<close>, the decimal
  text of a number, the element for an element.
\<close>

datatype 'a dom = Text string | Node 'a

fun render_child :: "'a jsx \<Rightarrow> 'a dom list" where
  "render_child Undefined = []"
| "render_child Zero = [Text ''0'']"
| "render_child (Element e) = [Node e]"

text \<open>
  \<open>Math.round\<close>: the nearest integer, a half going up. It is applied to the exact
  product here; the code rounds the product of doubles, which can fall on the other side
  of a half (0.575 * 100 is 57.49999999999999 there).
\<close>

definition Math_round :: "rat \<Rightarrow> int" where
  "Math_round x = \<lfloor>x + 1 / 2\<rfloor>"

text \<open>
  The match box of a card, \<open>recipe.match_score && (...)\<close>: its percentage and, inside,
  the line \<open>k of n ingredients available\<close>, itself guarded by
  \<open>recipe.matched_ingredients &&\<close>.
\<close>

record MatchBox =
  percent :: int
  available :: "(nat \<times> nat) jsx"

definition matchScore :: "Recipe \<Rightarrow> MatchBox jsx" where
  "matchScore recipe =
     js_and (match_score recipe) (\<lambda>x.
       \<lparr>percent = Math_round (x * 100),
        available =
          js_and (matched_ingredients recipe) (\<lambda>k. (k, length (Recipe.ingredients recipe)))\<rparr>)"

text \<open>The list view: a grid of cards, or the notice that no recipe was found.\<close>

datatype RecipesView = Grid "Recipe list" | NoRecipesFound

definition RecipesList :: "Recipe list \<Rightarrow> RecipesView" where
  "RecipesList rs = (if length rs > 0 then Grid rs else NoRecipesFound)"


text \<open>A sample recipe, as it is in a catalog: without annotations.\<close>

definition sample_recipe :: Recipe where
  "sample_recipe = \<lparr>recipe_id = 1, title = ''Caprese Omelette'',
     description = ''Eggs with tomato, cheese and basil'',
     Recipe.ingredients = [''Tomatoes'', ''Cheese'', ''Eggs'', ''Basil''],
     instructions = [''Whisk the eggs.'', ''Cook with the tomatoes, cheese and basil.''],
     prep_time = ''5 min'', cook_time = ''10 min'', servings = 2, difficulty = ''Easy'',
     cuisine = ''Italian'', source = None, match_score = None, matched_ingredients = None\<rparr>"


section \<open>The IngredientsList component\<close>

text \<open>
  The two \<open>useState\<close> hooks of the component. \<open>ingredients\<close> starts as the reference
  held by \<open>analysisResult.ingredients\<close>, \<open>newIngredient\<close> as the empty string. A handler
  reads the values of the current render and its setters fix the values of the next one.
\<close>

record IngredientsList =
  ingredients :: ref
  newIngredient :: string

definition initialIngredientsList :: "ref \<Rightarrow> IngredientsList" where
  "initialIngredientsList r = \<lparr>ingredients = r, newIngredient = []\<rparr>"

definition addIngredient :: "heap \<times> IngredientsList \<Rightarrow> heap \<times> IngredientsList" where
  "addIngredient = (\<lambda>(h, s).
     if trim (newIngredient s) \<noteq> []
        \<and> \<not> includes_array (deref h (ingredients s)) (trim (newIngredient s))
     then (let (r, h') = alloc (deref h (ingredients s) @ [trim (newIngredient s)]) h
           in (h', s\<lparr>ingredients := r, newIngredient := []\<rparr>))
     else (h, s))"

definition removeIngredient :: "nat \<Rightarrow> heap \<times> IngredientsList \<Rightarrow> heap \<times> IngredientsList" where
  "removeIngredient index = (\<lambda>(h, s).
     let (r, h') = alloc (filter_index (\<lambda>_ i. i \<noteq> index) (deref h (ingredients s))) h
     in (h', s\<lparr>ingredients := r\<rparr>))"

text \<open>The input field's \<open>onChange\<close>.\<close>

definition setNewIngredient :: "string \<Rightarrow> heap \<times> IngredientsList \<Rightarrow> heap \<times> IngredientsList" where
  "setNewIngredient v = (\<lambda>(h, s). (h, s\<lparr>newIngredient := v\<rparr>))"

definition handleKeyPress :: "string \<Rightarrow> heap \<times> IngredientsList \<Rightarrow> heap \<times> IngredientsList" where
  "handleKeyPress key hs = (if key = ''Enter'' then addIngredient hs else hs)"

text \<open>The ingredient list the component shows: the array its state refers to.\<close>

definition shown :: "heap \<times> IngredientsList \<Rightarrow> string list" where
  "shown = (\<lambda>(h, s). deref h (ingredients s))"

text \<open>
  The states the component can reach from its first render by the handlers above. The
  remove button of row \<open>i\<close> exists only for an index of the shown list.
\<close>

inductive reachable :: "heap \<times> IngredientsList \<Rightarrow> heap \<times> IngredientsList \<Rightarrow> bool"
  for init :: "heap \<times> IngredientsList" where
  start: "reachable init init"
| add: "reachable init hs \<Longrightarrow> reachable init (addIngredient hs)"
| remove: "reachable init hs \<Longrightarrow> i < length (shown hs) \<Longrightarrow> reachable init (removeIngredient i hs)"
| change: "reachable init hs \<Longrightarrow> reachable init (setNewIngredient v hs)"
| key: "reachable init hs \<Longrightarrow> reachable init (handleKeyPress k hs)"


section \<open>The recipe matcher\<close>

text \<open>
  Modelled from the spec: the Recipe Matcher of section 4.2. Its implementation
  (\<open>backend/app/models/recipe_generator.py\<close>) is not among the sources; the frontend only
  receives its output. The definitions follow the sentences of the spec one by one.
  A returned recipe is a catalog recipe with \<open>match_score\<close> and \<open>matched_ingredients\<close>
  filled in.
\<close>

text \<open>Modelled from the spec: case-insensitive normalization of an ingredient name.\<close>

definition normalize_name :: "string \<Rightarrow> string" where
  "normalize_name s = toLowerCase s"

text \<open>Modelled from the spec: the normalized user-ingredient set, duplicates counted once.\<close>

definition normalized_set :: "string list \<Rightarrow> string list" where
  "normalized_set us = remdups (map normalize_name us)"

text \<open>
  Modelled from the spec: a user ingredient matches a recipe ingredient if one contains
  the other after normalization.
\<close>

definition matches :: "string \<Rightarrow> string \<Rightarrow> bool" where
  "matches u i = (sublist u (normalize_name i) \<or> sublist (normalize_name i) u)"

text \<open>
  Modelled from the spec: \<open>matched\<close>, the count of the recipe's ingredients whose
  canonical form appears in the normalized user-ingredient set.
\<close>

definition matched :: "string list \<Rightarrow> Recipe \<Rightarrow> nat" where
  "matched us r =
     length (filter (\<lambda>i. \<exists>u \<in> set (normalized_set us). matches u i) (Recipe.ingredients r))"

text \<open>Modelled from the spec: \<open>match_score = matched / len(recipe.ingredients)\<close>.\<close>

definition annotate :: "string list \<Rightarrow> Recipe \<Rightarrow> Recipe" where
  "annotate us r =
     r\<lparr>match_score := Some (of_nat (matched us r) / of_nat (length (Recipe.ingredients r))),
       matched_ingredients := Some (matched us r)\<rparr>"

text \<open>Modelled from the spec: the score of a result, 0 when it carries none.\<close>

definition score :: "Recipe \<Rightarrow> rat" where
  "score r = (case match_score r of Some x \<Rightarrow> x | None \<Rightarrow> 0)"

text \<open>Modelled from the spec: the matched count of a result, 0 when it carries none.\<close>

definition matched_count :: "Recipe \<Rightarrow> nat" where
  "matched_count r = (case matched_ingredients r of Some k \<Rightarrow> k | None \<Rightarrow> 0)"

text \<open>
  Modelled from the spec: the ranking. Descending by score, then descending by matched
  count, then ascending by identifier: ascending in the key below, compared
  lexicographically.
\<close>

definition rank_key :: "Recipe \<Rightarrow> rat \<times> int \<times> int" where
  "rank_key r = (- score r, - int (matched_count r), recipe_id r)"

text \<open>Modelled from the spec: the primary result excludes the recipes of score 0.\<close>

definition primary :: "string list \<Rightarrow> Recipe list \<Rightarrow> Recipe list" where
  "primary us cat = sort_key rank_key (filter (\<lambda>r. score r \<noteq> 0) (map (annotate us) cat))"

text \<open>
  Modelled from the spec: the fallback subset, the \<open>n\<close> recipes of the catalog of lowest
  ingredient count (in catalog order among equals), each annotated with score 0. Like
  every response it is returned in the ranking order, which at equal score and matched
  count is ascending by identifier. The size \<open>n\<close> is a constant of the product that the
  spec leaves open.
\<close>

definition fallback :: "nat \<Rightarrow> Recipe list \<Rightarrow> Recipe list" where
  "fallback n cat =
     sort_key rank_key
       (map (\<lambda>r. r\<lparr>match_score := Some 0, matched_ingredients := Some 0\<rparr>)
          (take n (sort_key (\<lambda>r. length (Recipe.ingredients r)) cat)))"

text \<open>Modelled from the spec: \<open>match\<close>, the primary result or, when that is empty, the fallback.\<close>

definition match :: "nat \<Rightarrow> string list \<Rightarrow> Recipe list \<Rightarrow> Recipe list" where
  "match n us cat = (if primary us cat = [] then fallback n cat else primary us cat)"


section \<open>The ingredient extractor\<close>

text \<open>
  Modelled from the spec: the Ingredient Extractor of section 4.1 with its Caption Store.
  Its implementation (\<open>backend/app/models/image_analyzer.py\<close>) is not among the sources.
\<close>

text \<open>
  Modelled from the spec: the constants of the extractor, which the spec leaves to the
  product: the Caption Store (keyword and canonical ingredient name), the minimum number
  of distinct ingredients, the fallback set and the confidence heuristic.
\<close>

record Extractor =
  caption_store :: "(string \<times> string) list"
  min_ingredients :: nat
  fallback_ingredients :: "string list"
  fallback_confidence :: rat
  detected_confidence :: "nat \<Rightarrow> rat"

text \<open>
  Modelled from the spec: the characters of a word when a caption is tokenized: digits,
  lower-case letters and every code unit from 128 on.
\<close>

definition is_word_char :: "char \<Rightarrow> bool" where
  "is_word_char c =
     (let n = (of_char c :: nat) in (48 \<le> n \<and> n \<le> 57) \<or> (97 \<le> n \<and> n \<le> 122) \<or> 128 \<le> n)"

text \<open>
  Modelled from the spec: splitting a text into its words, the maximal runs of word
  characters; \<open>w\<close> is the word being read.
\<close>

fun words_acc :: "string \<Rightarrow> string \<Rightarrow> string list" where
  "words_acc w [] = (if w = [] then [] else [w])"
| "words_acc w (c # cs) =
     (if is_word_char c then words_acc (w @ [c]) cs
      else (if w = [] then [] else [w]) @ words_acc [] cs)"

text \<open>Modelled from the spec: tokenizing a caption into words, case-insensitively.\<close>

definition tokenize :: "string \<Rightarrow> string list" where
  "tokenize s = words_acc [] (toLowerCase s)"

text \<open>Modelled from the spec: the positions of a caption, each as the words from there on.\<close>

fun tails :: "'a list \<Rightarrow> 'a list list" where
  "tails [] = []"
| "tails (x # xs) = (x # xs) # tails xs"

text \<open>
  Modelled from the spec: matching tokens and short multi-word phrases against the
  keyword-to-ingredient table. A keyword of the store is hit at a position of the caption
  when its words are the words that start there.
\<close>

definition keyword_hits :: "(string \<times> string) list \<Rightarrow> string list \<Rightarrow> string list" where
  "keyword_hits store rest =
     map snd (filter (\<lambda>(kw, name). tokenize kw \<noteq> [] \<and> prefix (tokenize kw) rest) store)"

text \<open>Modelled from the spec: deduplication that preserves the order of first appearance.\<close>

definition first_appearance :: "'a list \<Rightarrow> 'a list" where
  "first_appearance xs = rev (remdups (rev xs))"

text \<open>
  Modelled from the spec: every distinct canonical ingredient name matched in the caption,
  in the order of first appearance.
\<close>

definition detect :: "(string \<times> string) list \<Rightarrow> string \<Rightarrow> string list" where
  "detect store cap = first_appearance (concat (map (keyword_hits store) (tails (tokenize cap))))"

text \<open>
  Modelled from the spec: \<open>extract\<close> (here \<open>extract_ingredients\<close>) with its fallback
  policy. Generic terms are not keywords of the store, so a caption of generic terms only
  yields no ingredient and takes the fallback like any caption below the threshold.
\<close>

definition extract_ingredients :: "Extractor \<Rightarrow> string \<Rightarrow> string list \<times> rat" where
  "extract_ingredients cfg cap =
     (let found = detect (caption_store cfg) cap in
      if length found < min_ingredients cfg
      then (fallback_ingredients cfg, fallback_confidence cfg)
      else (found, detected_confidence cfg (length found)))"

text \<open>
  Modelled from the spec: an extractor with the constants the spec gives as examples, a
  threshold of 3 and the fallback set \<open>Milk, Eggs, Cheese, Tomatoes, Onions\<close>.
\<close>

definition sample_extractor :: Extractor where
  "sample_extractor = \<lparr>
     caption_store = [(''milk'', ''Milk''), (''egg'', ''Eggs''), (''eggs'', ''Eggs''),
       (''cheese'', ''Cheese''), (''tomato'', ''Tomatoes''), (''tomatoes'', ''Tomatoes''),
       (''onion'', ''Onions''), (''onions'', ''Onions''), (''orange juice'', ''Orange Juice'')],
     min_ingredients = 3,
     fallback_ingredients = [''Milk'', ''Eggs'', ''Cheese'', ''Tomatoes'', ''Onions''],
     fallback_confidence = 1 / 2,
     detected_confidence = (\<lambda>k. min 1 (3 / 5 + of_nat k / 10))\<rparr>"


section \<open>Properties of the IngredientsList component\<close>

text \<open>
  C9. When the trimmed input is empty, \<open>addIngredient\<close> changes nothing. When it is
  non-empty and not yet in the list, the new list is the old one with the trimmed string
  appended at the end, and the input field is emptied.
\<close>

theorem addIngredient_appends_trimmed:
  "(trim (newIngredient s) = [] \<longrightarrow> addIngredient (h, s) = (h, s)) \<and>
   (trim (newIngredient s) \<noteq> [] \<and> trim (newIngredient s) \<notin> set (shown (h, s)) \<longrightarrow>
      shown (addIngredient (h, s)) = shown (h, s) @ [trim (newIngredient s)] \<and>
      newIngredient (snd (addIngredient (h, s))) = [])"
  by (simp add: addIngredient_def shown_def includes_array_def alloc_def deref_def)

theorem addIngredient_appends_trimmed_witness:
  "trim (newIngredient \<lparr>ingredients = 0, newIngredient = ''   ''\<rparr>) = [] \<and>
   addIngredient ([[''Milk'']], \<lparr>ingredients = 0, newIngredient = ''   ''\<rparr>)
     = ([[''Milk'']], \<lparr>ingredients = 0, newIngredient = ''   ''\<rparr>) \<and>
   trim (newIngredient \<lparr>ingredients = 0, newIngredient = '' Eggs ''\<rparr>) \<noteq> [] \<and>
   trim (newIngredient \<lparr>ingredients = 0, newIngredient = '' Eggs ''\<rparr>)
     \<notin> set (shown ([[''Milk'']], \<lparr>ingredients = 0, newIngredient = '' Eggs ''\<rparr>)) \<and>
   shown (addIngredient ([[''Milk'']], \<lparr>ingredients = 0, newIngredient = '' Eggs ''\<rparr>))
     = [''Milk'', ''Eggs''] \<and>
   newIngredient (snd (addIngredient ([[''Milk'']], \<lparr>ingredients = 0, newIngredient = '' Eggs ''\<rparr>))) = []"
  using addIngredient_appends_trimmed [of "\<lparr>ingredients = 0, newIngredient = ''   ''\<rparr>" "[[''Milk'']]"]
    addIngredient_appends_trimmed [of "\<lparr>ingredients = 0, newIngredient = '' Eggs ''\<rparr>" "[[''Milk'']]"]
  by (simp add: trim_def isWhiteSpace_def shown_def deref_def)

lemma filter_index_offset:
  "map fst (filter (\<lambda>(x, i). i \<noteq> k) (zip xs [n..<n + length xs]))
     = (if k < n then xs else take (k - n) xs @ drop (Suc (k - n)) xs)"
proof (induction xs arbitrary: n)
  case Nil
  then show ?case by simp
next
  case (Cons x xs)
  have "[n..<n + length (x # xs)] = n # [Suc n..<Suc n + length xs]"
    by (simp add: upt_rec)
  then have up: "map fst (filter (\<lambda>(x, i). i \<noteq> k) (zip (x # xs) [n..<n + length (x # xs)]))
      = (if n \<noteq> k then [x] else [])
        @ map fst (filter (\<lambda>(x, i). i \<noteq> k) (zip xs [Suc n..<Suc n + length xs]))"
    by (simp del: upt_Suc)
  have rest: "(if n \<noteq> k then [x] else [])
        @ (if k < Suc n then xs else take (k - Suc n) xs @ drop (Suc (k - Suc n)) xs)
      = (if k < n then x # xs else take (k - n) (x # xs) @ drop (Suc (k - n)) (x # xs))"
  proof (cases "k \<le> n")
    case True
    then show ?thesis by auto
  next
    case False
    then have "k - n = Suc (k - Suc n)" by simp
    with False show ?thesis by simp
  qed
  show ?case
    unfolding up Cons.IH [of "Suc n"] by (rule rest)
qed

lemma filter_index_remove:
  "filter_index (\<lambda>_ i. i \<noteq> k) xs = take k xs @ drop (Suc k) xs"
  using filter_index_offset [of k xs 0] by (simp add: filter_index_def)

lemma shown_removeIngredient:
  "shown (removeIngredient i (h, s)) = take i (shown (h, s)) @ drop (Suc i) (shown (h, s))"
  by (simp add: removeIngredient_def shown_def alloc_def deref_def filter_index_remove)


lemma removeIngredient_heap:
  "fst (removeIngredient i (h, s)) = h @ [take i (shown (h, s)) @ drop (Suc i) (shown (h, s))]
   \<and> ingredients (snd (removeIngredient i (h, s))) = length h
   \<and> newIngredient (snd (removeIngredient i (h, s))) = newIngredient s"
  by (simp add: removeIngredient_def shown_def alloc_def deref_def filter_index_remove)

lemma addIngredient_heap:
  "addIngredient (h, s) = (h, s) \<or>
   (fst (addIngredient (h, s)) = h @ [shown (h, s) @ [trim (newIngredient s)]]
    \<and> ingredients (snd (addIngredient (h, s))) = length h
    \<and> trim (newIngredient s) \<notin> set (shown (h, s)))"
  by (simp add: addIngredient_def shown_def alloc_def deref_def includes_array_def)

text \<open>
  C7. For a valid index \<open>i\<close>, \<open>removeIngredient\<close> makes the state refer to a newly
  allocated array that is the old list without its element at position \<open>i\<close>: one shorter,
  the elements before \<open>i\<close> in place, the elements after it moved down by one. Every array
  that existed before the call, the old list among them, has the contents it had, after
  \<open>removeIngredient\<close> and after \<open>addIngredient\<close> alike.
\<close>

theorem removeIngredient_new_list:
  assumes "ingredients s < length h" and "i < length (shown (h, s))"
  shows "shown (removeIngredient i (h, s)) = take i (shown (h, s)) @ drop (Suc i) (shown (h, s))
    \<and> length (shown (removeIngredient i (h, s))) = length (shown (h, s)) - 1
    \<and> (\<forall>j<i. shown (removeIngredient i (h, s)) ! j = shown (h, s) ! j)
    \<and> (\<forall>j. i \<le> j \<and> j < length (shown (h, s)) - 1 \<longrightarrow>
          shown (removeIngredient i (h, s)) ! j = shown (h, s) ! Suc j)
    \<and> ingredients (snd (removeIngredient i (h, s))) \<noteq> ingredients s
    \<and> (\<forall>a<length h. deref (fst (removeIngredient i (h, s))) a = deref h a)
    \<and> (\<forall>a<length h. deref (fst (addIngredient (h, s))) a = deref h a)"
proof -
  let ?xs = "shown (h, s)"
  have new: "shown (removeIngredient i (h, s)) = take i ?xs @ drop (Suc i) ?xs"
    by (rule shown_removeIngredient)
  have len: "length (take i ?xs @ drop (Suc i) ?xs) = length ?xs - 1"
    using assms(2) by simp
  have before: "\<forall>j<i. (take i ?xs @ drop (Suc i) ?xs) ! j = ?xs ! j"
    using assms(2) by (simp add: nth_append)
  have after: "\<forall>j. i \<le> j \<and> j < length ?xs - 1 \<longrightarrow>
      (take i ?xs @ drop (Suc i) ?xs) ! j = ?xs ! Suc j"
    using assms(2) by (auto simp: nth_append min_def)
  have fresh: "ingredients (snd (removeIngredient i (h, s))) \<noteq> ingredients s"
    using assms(1) removeIngredient_heap [of i h s] by simp
  have rem: "\<forall>a<length h. deref (fst (removeIngredient i (h, s))) a = deref h a"
    using removeIngredient_heap [of i h s] by (simp add: deref_def nth_append)
  have add: "\<forall>a<length h. deref (fst (addIngredient (h, s))) a = deref h a"
    using addIngredient_heap [of h s] by (auto simp: deref_def nth_append)
  show ?thesis
    using len before after fresh rem add by (simp only: new) simp
qed

theorem removeIngredient_new_list_witness:
  "ingredients \<lparr>ingredients = 0, newIngredient = ''Basil''\<rparr> < length [[''Milk'', ''Eggs'', ''Cheese'']]
   \<and> 1 < length (shown ([[''Milk'', ''Eggs'', ''Cheese'']], \<lparr>ingredients = 0, newIngredient = ''Basil''\<rparr>))
   \<and> shown (removeIngredient 1 ([[''Milk'', ''Eggs'', ''Cheese'']], \<lparr>ingredients = 0, newIngredient = ''Basil''\<rparr>))
       = [''Milk'', ''Cheese'']
   \<and> deref (fst (removeIngredient 1 ([[''Milk'', ''Eggs'', ''Cheese'']], \<lparr>ingredients = 0, newIngredient = ''Basil''\<rparr>))) 0
       = [''Milk'', ''Eggs'', ''Cheese'']
   \<and> deref (fst (addIngredient ([[''Milk'', ''Eggs'', ''Cheese'']], \<lparr>ingredients = 0, newIngredient = ''Basil''\<rparr>))) 0
       = [''Milk'', ''Eggs'', ''Cheese'']"
  using removeIngredient_new_list [of "\<lparr>ingredients = 0, newIngredient = ''Basil''\<rparr>"
      "[[''Milk'', ''Eggs'', ''Cheese'']]" 1]
  by (simp add: shown_def deref_def)

lemma distinct_remove_index: "distinct xs \<Longrightarrow> distinct (take i xs @ drop (Suc i) xs)"
proof -
  assume d: "distinct xs"
  have "set (take i xs) \<inter> set (drop (Suc i) xs) \<subseteq> set (take i xs) \<inter> set (drop i xs)"
    using set_drop_subset_set_drop [of i "Suc i" xs] by auto
  moreover have "set (take i xs) \<inter> set (drop i xs) = {}"
    using d by (rule set_take_disj_set_drop_if_distinct) simp
  ultimately show ?thesis using d by auto
qed

lemma addIngredient_inv:
  assumes "ingredients s < length h" and "distinct (shown (h, s))"
  shows "ingredients (snd (addIngredient (h, s))) < length (fst (addIngredient (h, s)))
    \<and> distinct (shown (addIngredient (h, s)))"
  using assms
  by (simp add: addIngredient_def shown_def alloc_def deref_def includes_array_def)

lemma removeIngredient_inv:
  assumes "distinct (shown (h, s))"
  shows "ingredients (snd (removeIngredient i (h, s))) < length (fst (removeIngredient i (h, s)))
    \<and> distinct (shown (removeIngredient i (h, s)))"
proof -
  have "distinct (take i (shown (h, s)) @ drop (Suc i) (shown (h, s)))"
    using assms by (rule distinct_remove_index)
  then show ?thesis
    using removeIngredient_heap [of i h s] by (simp only: shown_removeIngredient) simp
qed

lemma reachable_inv:
  assumes "reachable init hs"
    and "ingredients (snd init) < length (fst init)" and "distinct (shown init)"
  shows "ingredients (snd hs) < length (fst hs) \<and> distinct (shown hs)"
  using assms
proof (induction rule: reachable.induct)
  case start
  then show ?case by simp
next
  case (add hs)
  then show ?case using addIngredient_inv [of "snd hs" "fst hs"] by simp
next
  case (remove hs i)
  then show ?case using removeIngredient_inv [of "fst hs" "snd hs" i] by simp
next
  case (change hs v)
  then show ?case by (simp add: setNewIngredient_def shown_def split_beta)
next
  case (key hs k)
  then show ?case using addIngredient_inv [of "snd hs" "fst hs"]
    by (simp add: handleKeyPress_def)
qed

text \<open>
  C5, as the code has it. \<open>addIngredient\<close> compares the trimmed input with the entries by
  exact string equality: when the trimmed input is already an entry the call changes
  nothing, and when the list of the first render has no two identical entries, no list
  reachable from it has two identical entries.
\<close>

theorem addIngredient_exact_unique:
  assumes "ingredients (snd init) < length (fst init)" and "distinct (shown init)"
    and "reachable init hs"
  shows "distinct (shown hs)
    \<and> (trim (newIngredient (snd hs)) \<in> set (shown hs) \<longrightarrow> addIngredient hs = hs)"
proof -
  have "distinct (shown hs)"
    using reachable_inv [OF assms(3) assms(1) assms(2)] by simp
  moreover have "trim (newIngredient (snd hs)) \<in> set (shown hs) \<longrightarrow> addIngredient hs = hs"
    by (simp add: addIngredient_def shown_def includes_array_def split_beta)
  ultimately show ?thesis by simp
qed

theorem addIngredient_exact_unique_witness:
  "ingredients (snd ([[''tomato'']], \<lparr>ingredients = 0, newIngredient = '' tomato ''\<rparr>))
     < length (fst ([[''tomato'']], \<lparr>ingredients = 0, newIngredient = '' tomato ''\<rparr>))
   \<and> distinct (shown ([[''tomato'']], \<lparr>ingredients = 0, newIngredient = '' tomato ''\<rparr>))
   \<and> reachable ([[''tomato'']], \<lparr>ingredients = 0, newIngredient = '' tomato ''\<rparr>)
       (setNewIngredient '' tomato '' ([[''tomato'']], \<lparr>ingredients = 0, newIngredient = '' tomato ''\<rparr>))
   \<and> trim '' tomato '' \<in> set [''tomato'']
   \<and> addIngredient ([[''tomato'']], \<lparr>ingredients = 0, newIngredient = '' tomato ''\<rparr>)
       = ([[''tomato'']], \<lparr>ingredients = 0, newIngredient = '' tomato ''\<rparr>)"
proof -
  let ?init = "([[''tomato'']], \<lparr>ingredients = 0, newIngredient = '' tomato ''\<rparr>)"
  have r: "reachable ?init (setNewIngredient '' tomato '' ?init)"
    by (rule reachable.change [OF reachable.start])
  have a: "ingredients (snd ?init) < length (fst ?init)" by simp
  have d: "distinct (shown ?init)" by (simp add: shown_def deref_def)
  have t: "trim '' tomato '' = ''tomato''" by (simp add: trim_def isWhiteSpace_def)
  show ?thesis
    using a d r t addIngredient_exact_unique [OF a d r]
    by (simp add: setNewIngredient_def shown_def deref_def)
qed

text \<open>
  The comparison is not case-insensitive: from a first render with the list \<open>tomato\<close>,
  typing \<open>Tomato\<close> and adding it appends the entry, and the reachable list then holds
  two entries that are equal when lower-cased.
\<close>

theorem addIngredient_case_insensitive_counterexample:
  "reachable ([[''tomato'']], initialIngredientsList 0)
     (addIngredient (setNewIngredient ''Tomato'' ([[''tomato'']], initialIngredientsList 0)))
   \<and> distinct (shown ([[''tomato'']], initialIngredientsList 0))
   \<and> shown (addIngredient (setNewIngredient ''Tomato'' ([[''tomato'']], initialIngredientsList 0)))
       = [''tomato'', ''Tomato'']
   \<and> map toLowerCase (shown (addIngredient (setNewIngredient ''Tomato'' ([[''tomato'']], initialIngredientsList 0))))
       = [''tomato'', ''tomato'']
   \<and> toLowerCase (trim ''Tomato'') \<in> set (map toLowerCase (shown ([[''tomato'']], initialIngredientsList 0)))
   \<and> shown (addIngredient (setNewIngredient ''Tomato'' ([[''tomato'']], initialIngredientsList 0)))
       \<noteq> shown ([[''tomato'']], initialIngredientsList 0)
   \<and> \<not> distinct (map toLowerCase
         (shown (addIngredient (setNewIngredient ''Tomato'' ([[''tomato'']], initialIngredientsList 0)))))"
proof -
  let ?init = "([[''tomato'']], initialIngredientsList 0)"
  have r: "reachable ?init (addIngredient (setNewIngredient ''Tomato'' ?init))"
    by (rule reachable.add [OF reachable.change [OF reachable.start]])
  have t: "trim ''Tomato'' = ''Tomato''" by (simp add: trim_def isWhiteSpace_def)
  have l: "toLowerCase ''Tomato'' = ''tomato''" "toLowerCase ''tomato'' = ''tomato''"
    by code_simp+
  have i: "shown ?init = [''tomato'']"
    by (simp add: shown_def deref_def initialIngredientsList_def)
  have s: "shown (addIngredient (setNewIngredient ''Tomato'' ?init)) = [''tomato'', ''Tomato'']"
    by (simp add: addIngredient_def setNewIngredient_def initialIngredientsList_def t
        shown_def deref_def alloc_def includes_array_def)
  show ?thesis
    using r by (simp add: s i t l)
qed


section \<open>Properties of the App component\<close>

lemma generateRecipes_throws:
  "generateRecipes post ings = Throw e \<Longrightarrow> \<exists>m. e = Error m \<and> m \<noteq> []"
  by (auto simp: generateRecipes_def js_or_def split: axios_outcome.splits option.splits if_splits)

text \<open>
  C8. When the request throws, or returns a response whose \<open>success\<close> is false,
  \<open>handleGenerateRecipes\<close> leaves the stored recipes and the current view as they were,
  clears the loading flag and sets a non-empty error message; nothing else of the state
  changes.
\<close>

theorem handleGenerateRecipes_failure:
  assumes "(\<exists>e. generateRecipes post ings = Throw e)
     \<or> (\<exists>r. generateRecipes post ings = Return r \<and> \<not> RecipeResponse.success r)"
  shows "App.recipes (handleGenerateRecipes post ings s) = App.recipes s
    \<and> currentState (handleGenerateRecipes post ings s) = currentState s
    \<and> isLoading (handleGenerateRecipes post ings s) = False
    \<and> (\<exists>msg. msg \<noteq> [] \<and> App.error (handleGenerateRecipes post ings s) = Some msg
          \<and> handleGenerateRecipes post ings s = s\<lparr>isLoading := False, App.error := Some msg\<rparr>)"
  using assms
proof
  assume "\<exists>e. generateRecipes post ings = Throw e"
  then obtain e where e: "generateRecipes post ings = Throw e" by blast
  then obtain m where m: "e = Error m" "m \<noteq> []"
    using generateRecipes_throws by blast
  show ?thesis
    using e m by (simp add: handleGenerateRecipes_def)
next
  assume "\<exists>r. generateRecipes post ings = Return r \<and> \<not> RecipeResponse.success r"
  then obtain r where "generateRecipes post ings = Return r" "\<not> RecipeResponse.success r"
    by blast
  then show ?thesis
    by (simp add: handleGenerateRecipes_def)
qed

theorem handleGenerateRecipes_failure_witness:
  "generateRecipes (\<lambda>_. OtherFailure) [''Milk''] = Throw (Error ''Network error occurred'')
   \<and> App.recipes (handleGenerateRecipes (\<lambda>_. OtherFailure) [''Milk'']
         (initialApp\<lparr>currentState := Ingredients, App.recipes := [sample_recipe]\<rparr>))
       = [sample_recipe]
   \<and> currentState (handleGenerateRecipes (\<lambda>_. OtherFailure) [''Milk'']
         (initialApp\<lparr>currentState := Ingredients, App.recipes := [sample_recipe]\<rparr>))
       = Ingredients
   \<and> isLoading (handleGenerateRecipes (\<lambda>_. OtherFailure) [''Milk'']
         (initialApp\<lparr>currentState := Ingredients, App.recipes := [sample_recipe]\<rparr>))
       = False
   \<and> App.error (handleGenerateRecipes (\<lambda>_. OtherFailure) [''Milk'']
         (initialApp\<lparr>currentState := Ingredients, App.recipes := [sample_recipe]\<rparr>))
       = Some ''Network error occurred''"
proof -
  have t: "generateRecipes (\<lambda>_. OtherFailure) [''Milk''] = Throw (Error ''Network error occurred'')"
    by (simp add: generateRecipes_def)
  then have "(\<exists>e. generateRecipes (\<lambda>_. OtherFailure) [''Milk''] = Throw e)
     \<or> (\<exists>r. generateRecipes (\<lambda>_. OtherFailure) [''Milk''] = Return r \<and> \<not> RecipeResponse.success r)"
    by simp
  from handleGenerateRecipes_failure [OF this,
      of "initialApp\<lparr>currentState := Ingredients, App.recipes := [sample_recipe]\<rparr>"]
  show ?thesis
    using t by (simp add: initialApp_def handleGenerateRecipes_def)
qed


section \<open>Properties of the RecipeCard component\<close>

lemma matchScore_box_iff:
  "(\<exists>b. matchScore r = Element b) \<longleftrightarrow> (\<exists>x. match_score r = Some x \<and> x \<noteq> 0)"
  by (auto simp: matchScore_def js_and_def split: option.splits)

lemma matchScore_available_iff:
  "(\<exists>b kn. matchScore r = Element b \<and> available b = Element kn)
     \<longleftrightarrow> (\<exists>x k. match_score r = Some x \<and> x \<noteq> 0 \<and> matched_ingredients r = Some k \<and> k \<noteq> 0)"
  by (auto simp: matchScore_def js_and_def split: option.splits)

lemma matchScore_absent: "match_score r = None \<Longrightarrow> render_child (matchScore r) = []"
  by (simp add: matchScore_def js_and_def)

lemma matchScore_zero: "match_score r = Some 0 \<Longrightarrow> render_child (matchScore r) = [Text ''0'']"
  by (simp add: matchScore_def js_and_def)

text \<open>
  C10, at a recipe annotated \<open>match_score = 0\<close>. The guard \<open>recipe.match_score && (...)\<close>
  evaluates to the number \<open>0\<close>, not to \<open>undefined\<close>: the match box is left out, and the
  card shows the text \<open>0\<close> in its place.
\<close>

theorem matchScore_zero_renders_text:
  "matchScore (sample_recipe\<lparr>match_score := Some 0, matched_ingredients := Some 0\<rparr>) = Zero
   \<and> render_child (matchScore (sample_recipe\<lparr>match_score := Some 0, matched_ingredients := Some 0\<rparr>))
       = [Text ''0'']
   \<and> render_child (matchScore (sample_recipe\<lparr>match_score := Some 0, matched_ingredients := Some 0\<rparr>))
       \<noteq> []"
  by (simp add: matchScore_def js_and_def)


section \<open>Properties of the recipe matcher\<close>

lemma matched_le_length: "matched us r \<le> length (Recipe.ingredients r)"
  by (simp add: matched_def)

lemma matched_raw:
  "matched us r = length (filter (\<lambda>i. \<exists>u \<in> set us.
       sublist (normalize_name u) (normalize_name i) \<or> sublist (normalize_name i) (normalize_name u))
     (Recipe.ingredients r))"
  by (simp add: matched_def normalized_set_def matches_def)

lemma score_annotate:
  "score (annotate us r) = of_nat (matched us r) / of_nat (length (Recipe.ingredients r))"
  by (simp add: score_def annotate_def)

lemma matched_count_annotate: "matched_count (annotate us r) = matched us r"
  by (simp add: matched_count_def annotate_def)

lemma score_annotate_bounds: "0 \<le> score (annotate us r) \<and> score (annotate us r) \<le> 1"
proof -
  have "(of_nat (matched us r) :: rat) \<le> of_nat (length (Recipe.ingredients r))"
    using matched_le_length [of us r] by (simp only: of_nat_le_iff)
  then show ?thesis
    by (simp add: score_annotate divide_le_eq_1)
qed

lemma score_annotate_zero:
  "Recipe.ingredients r \<noteq> [] \<Longrightarrow> score (annotate us r) = 0 \<longleftrightarrow> matched us r = 0"
  by (simp add: score_annotate)

lemma matched_zero_score: "matched us r = 0 \<Longrightarrow> score (annotate us r) = 0"
  by (simp add: score_annotate)

lemma set_primary:
  "set (primary us cat) = {annotate us r | r. r \<in> set cat \<and> score (annotate us r) \<noteq> 0}"
  by (auto simp: primary_def)

lemma primary_empty_iff:
  "primary us cat = [] \<longleftrightarrow> (\<forall>r \<in> set cat. score (annotate us r) = 0)"
proof -
  have "primary us cat = [] \<longleftrightarrow> set (primary us cat) = {}" by simp
  then show ?thesis unfolding set_primary by auto
qed

lemma set_fallback:
  "m \<in> set (fallback n cat) \<Longrightarrow>
     \<exists>r \<in> set cat. m = r\<lparr>match_score := Some 0, matched_ingredients := Some 0\<rparr>"
proof -
  assume "m \<in> set (fallback n cat)"
  then obtain r where r: "r \<in> set (take n (sort_key (\<lambda>r. length (Recipe.ingredients r)) cat))"
    and m: "m = r\<lparr>match_score := Some 0, matched_ingredients := Some 0\<rparr>"
    by (auto simp: fallback_def)
  from r have "r \<in> set cat"
    using set_take_subset [of n "sort_key (\<lambda>r. length (Recipe.ingredients r)) cat"] by auto
  with m show ?thesis by blast
qed

lemma length_fallback: "length (fallback n cat) = min n (length cat)"
  by (simp add: fallback_def min.commute)

lemma annotate_zero:
  "matched us r = 0 \<Longrightarrow> annotate us r = r\<lparr>match_score := Some 0, matched_ingredients := Some 0\<rparr>"
  by (simp add: annotate_def)

lemma matched_spec_example:
  "length (filter (\<lambda>i. \<exists>u \<in> set (normalized_set [''tomato'', ''cheese'', ''eggs'']). matches u i)
     [''Tomatoes'', ''Cheese'', ''Eggs'', ''Basil'']) = 3"
  by code_simp

lemma annotate_spec_example:
  assumes "Recipe.ingredients r = [''Tomatoes'', ''Cheese'', ''Eggs'', ''Basil'']"
  shows "matched_ingredients (annotate [''tomato'', ''cheese'', ''eggs''] r) = Some 3
    \<and> match_score (annotate [''tomato'', ''cheese'', ''eggs''] r) = Some (3 / 4)"
proof -
  have "matched [''tomato'', ''cheese'', ''eggs''] r = 3"
    unfolding matched_def assms by (rule matched_spec_example)
  then show ?thesis by (simp add: annotate_def assms)
qed

text \<open>
  C1. For every recipe and user list, the annotation carries \<open>matched\<close>, the number of
  the recipe's ingredients that contain, or are contained in, some user ingredient after
  normalization, and \<open>match_score = matched / length ingredients\<close>, which lies between
  0 and 1. Over a catalog whose recipes all have ingredients, every recipe that \<open>match\<close>
  returns is a catalog recipe annotated this way. The user ingredients
  \<open>tomato, cheese, eggs\<close> against a recipe with the ingredients
  \<open>Tomatoes, Cheese, Eggs, Basil\<close> give 3 matched ingredients and the score 3/4.
\<close>

theorem match_score_formula:
  "matched_ingredients (annotate us r) = Some (length (filter (\<lambda>i. \<exists>u \<in> set us.
       sublist (normalize_name u) (normalize_name i) \<or> sublist (normalize_name i) (normalize_name u))
     (Recipe.ingredients r)))
   \<and> match_score (annotate us r)
       = Some (of_nat (matched us r) / of_nat (length (Recipe.ingredients r)))
   \<and> 0 \<le> score (annotate us r) \<and> score (annotate us r) \<le> 1
   \<and> ((\<forall>c \<in> set cat. Recipe.ingredients c \<noteq> []) \<and> m \<in> set (match n us cat)
        \<longrightarrow> (\<exists>c \<in> set cat. m = annotate us c))
   \<and> (Recipe.ingredients r = [''Tomatoes'', ''Cheese'', ''Eggs'', ''Basil'']
        \<longrightarrow> matched_ingredients (annotate [''tomato'', ''cheese'', ''eggs''] r) = Some 3
          \<and> match_score (annotate [''tomato'', ''cheese'', ''eggs''] r) = Some (3 / 4))"
proof -
  have a: "matched_ingredients (annotate us r) = Some (length (filter (\<lambda>i. \<exists>u \<in> set us.
       sublist (normalize_name u) (normalize_name i) \<or> sublist (normalize_name i) (normalize_name u))
     (Recipe.ingredients r)))"
    using matched_raw [of us r] by (simp add: annotate_def)
  have b: "match_score (annotate us r)
       = Some (of_nat (matched us r) / of_nat (length (Recipe.ingredients r)))"
    by (simp add: annotate_def)
  have c: "\<exists>c \<in> set cat. m = annotate us c"
    if valid: "\<forall>c \<in> set cat. Recipe.ingredients c \<noteq> []" and m: "m \<in> set (match n us cat)"
  proof (cases "primary us cat = []")
    case True
    with m have "m \<in> set (fallback n cat)" by (simp add: match_def)
    then obtain c where c: "c \<in> set cat"
      and mc: "m = c\<lparr>match_score := Some 0, matched_ingredients := Some 0\<rparr>"
      using set_fallback by blast
    from True c have "score (annotate us c) = 0" by (simp add: primary_empty_iff)
    with valid c have "matched us c = 0" by (simp add: score_annotate_zero)
    then have "m = annotate us c" using mc by (simp add: annotate_zero)
    with c show ?thesis by blast
  next
    case False
    with m have "m \<in> set (primary us cat)" by (simp add: match_def)
    then show ?thesis unfolding set_primary by blast
  qed
  show ?thesis
    using a b c score_annotate_bounds [of us r] annotate_spec_example [of r] by blast
qed

theorem match_score_formula_witness:
  "Recipe.ingredients sample_recipe \<noteq> []
   \<and> annotate [''tomato'', ''cheese'', ''eggs''] sample_recipe
       \<in> set (match 3 [''tomato'', ''cheese'', ''eggs''] [sample_recipe])
   \<and> Recipe.ingredients sample_recipe = [''Tomatoes'', ''Cheese'', ''Eggs'', ''Basil'']
   \<and> matched_ingredients (annotate [''tomato'', ''cheese'', ''eggs''] sample_recipe) = Some 3
   \<and> match_score (annotate [''tomato'', ''cheese'', ''eggs''] sample_recipe) = Some (3 / 4)
   \<and> score (annotate [''tomato'', ''cheese'', ''eggs''] sample_recipe) \<le> 1"
proof -
  let ?us = "[''tomato'', ''cheese'', ''eggs'']"
  have i: "Recipe.ingredients sample_recipe = [''Tomatoes'', ''Cheese'', ''Eggs'', ''Basil'']"
    by (simp add: sample_recipe_def)
  note inst = match_score_formula [of ?us sample_recipe "[sample_recipe]"
        "annotate ?us sample_recipe" 3]
  from inst i have ex: "matched_ingredients (annotate ?us sample_recipe) = Some 3
      \<and> match_score (annotate ?us sample_recipe) = Some (3 / 4)"
    by blast
  then have p: "primary ?us [sample_recipe] = [annotate ?us sample_recipe]"
    by (simp add: primary_def score_def)
  have m: "annotate ?us sample_recipe \<in> set (match 3 ?us [sample_recipe])"
    by (simp add: match_def p)
  have "score (annotate ?us sample_recipe) \<le> 1"
    using inst by blast
  then show ?thesis
    using ex m i by simp
qed

lemma match_sorted: "sorted (map rank_key (match n us cat))"
  by (simp add: match_def primary_def fallback_def)

lemma distinct_map_sort_key:
  "distinct (map f (sort_key k xs)) \<longleftrightarrow> distinct (map f xs)"
  by (simp add: distinct_map)

lemma distinct_ids_primary:
  assumes "distinct (map recipe_id cat)"
  shows "distinct (map recipe_id (primary us cat))"
proof -
  have "recipe_id \<circ> annotate us = recipe_id"
    by (rule ext) (simp add: annotate_def)
  then have "map recipe_id (map (annotate us) cat) = map recipe_id cat"
    by (simp only: map_map)
  then have "distinct (map recipe_id (map (annotate us) cat))"
    using assms by (simp only:)
  then have "distinct (map recipe_id (filter (\<lambda>r. score r \<noteq> 0) (map (annotate us) cat)))"
    by (rule distinct_map_filter)
  then show ?thesis
    unfolding primary_def by (simp only: distinct_map_sort_key)
qed

lemma distinct_ids_fallback:
  assumes "distinct (map recipe_id cat)"
  shows "distinct (map recipe_id (fallback n cat))"
proof -
  let ?by_count = "sort_key (\<lambda>r. length (Recipe.ingredients r)) cat"
  let ?zero = "\<lambda>r. r\<lparr>match_score := Some 0, matched_ingredients := Some (0::nat)\<rparr>"
  have "distinct (map recipe_id ?by_count)"
    using assms by (simp only: distinct_map_sort_key)
  then have "distinct (take n (map recipe_id ?by_count))"
    by (rule distinct_take)
  moreover have "map recipe_id (map ?zero (take n ?by_count)) = take n (map recipe_id ?by_count)"
    by (simp add: take_map)
  ultimately have "distinct (map recipe_id (map ?zero (take n ?by_count)))"
    by simp
  then show ?thesis
    unfolding fallback_def by (simp only: distinct_map_sort_key)
qed

lemma distinct_ids_match:
  "distinct (map recipe_id cat) \<Longrightarrow> distinct (map recipe_id (match n us cat))"
  by (simp add: match_def distinct_ids_primary distinct_ids_fallback)

lemma match_nth_ranked:
  assumes "i < j" and "j < length (match n us cat)"
  shows "score (match n us cat ! j) < score (match n us cat ! i)
    \<or> (score (match n us cat ! i) = score (match n us cat ! j)
        \<and> (matched_count (match n us cat ! j) < matched_count (match n us cat ! i)
           \<or> (matched_count (match n us cat ! i) = matched_count (match n us cat ! j)
               \<and> recipe_id (match n us cat ! i) \<le> recipe_id (match n us cat ! j))))"
proof -
  let ?p = "match n us cat"
  have "map rank_key ?p ! i \<le> map rank_key ?p ! j"
    using match_sorted [of n us cat] assms by (simp add: sorted_iff_nth_mono)
  then have "rank_key (?p ! i) \<le> rank_key (?p ! j)"
    using assms by simp
  then show ?thesis
    by (auto simp: rank_key_def less_eq_prod_def)
qed

lemma match_nth_ids_differ:
  assumes "distinct (map recipe_id cat)" and "i < j" and "j < length (match n us cat)"
  shows "recipe_id (match n us cat ! i) \<noteq> recipe_id (match n us cat ! j)"
proof -
  let ?ids = "map recipe_id (match n us cat)"
  have "distinct ?ids" using assms(1) by (rule distinct_ids_match)
  moreover have "i < length ?ids" "j < length ?ids" "i \<noteq> j" using assms by simp_all
  ultimately have "?ids ! i \<noteq> ?ids ! j" by (simp only: nth_eq_iff_index_eq) simp
  then show ?thesis using assms by simp
qed

text \<open>
  C2. For two results \<open>A\<close> before \<open>B\<close> in any list \<open>match\<close> returns, primary or
  fallback: \<open>A\<close> has the higher score, or the scores are equal and \<open>A\<close> has at least the
  matched count of \<open>B\<close>, or both are equal and \<open>A\<close> has the smaller identifier. The list
  is sorted: higher score first, at equal score higher matched count first, at equal score
  and count identifiers ascending; when the identifiers of the catalog are distinct the
  last comparison is strict.
\<close>

theorem match_ranking:
  assumes "i < j" and "j < length (match n us cat)"
  shows "(score (match n us cat ! j) < score (match n us cat ! i)
      \<or> (score (match n us cat ! i) = score (match n us cat ! j)
          \<and> matched_count (match n us cat ! j) \<le> matched_count (match n us cat ! i))
      \<or> (score (match n us cat ! i) = score (match n us cat ! j)
          \<and> matched_count (match n us cat ! i) = matched_count (match n us cat ! j)
          \<and> recipe_id (match n us cat ! i) < recipe_id (match n us cat ! j)))
    \<and> (score (match n us cat ! j) < score (match n us cat ! i)
         \<or> (score (match n us cat ! i) = score (match n us cat ! j)
             \<and> (matched_count (match n us cat ! j) < matched_count (match n us cat ! i)
                \<or> (matched_count (match n us cat ! i) = matched_count (match n us cat ! j)
                    \<and> recipe_id (match n us cat ! i) \<le> recipe_id (match n us cat ! j)))))
    \<and> (distinct (map recipe_id cat) \<longrightarrow>
         score (match n us cat ! j) < score (match n us cat ! i)
         \<or> (score (match n us cat ! i) = score (match n us cat ! j)
             \<and> (matched_count (match n us cat ! j) < matched_count (match n us cat ! i)
                \<or> (matched_count (match n us cat ! i) = matched_count (match n us cat ! j)
                    \<and> recipe_id (match n us cat ! i) < recipe_id (match n us cat ! j)))))"
proof -
  note ranked = match_nth_ranked [OF assms]
  have strict: "recipe_id (match n us cat ! i) \<noteq> recipe_id (match n us cat ! j)"
    if "distinct (map recipe_id cat)"
    using that assms by (rule match_nth_ids_differ)
  show ?thesis
    using ranked strict by (cases "distinct (map recipe_id cat)") auto
qed

theorem match_ranking_witness:
  "(0::nat) < 1
   \<and> 1 < length (match 3 [''eggs'', ''basil''] [sample_recipe\<lparr>recipe_id := 2\<rparr>, sample_recipe,
         sample_recipe\<lparr>recipe_id := 3, Recipe.ingredients := [''Eggs'', ''Flour'']\<rparr>])
   \<and> map recipe_id (match 3 [''eggs'', ''basil''] [sample_recipe\<lparr>recipe_id := 2\<rparr>, sample_recipe,
         sample_recipe\<lparr>recipe_id := 3, Recipe.ingredients := [''Eggs'', ''Flour'']\<rparr>]) = [1, 2, 3]
   \<and> map score (match 3 [''eggs'', ''basil''] [sample_recipe\<lparr>recipe_id := 2\<rparr>, sample_recipe,
         sample_recipe\<lparr>recipe_id := 3, Recipe.ingredients := [''Eggs'', ''Flour'']\<rparr>])
       = [1 / 2, 1 / 2, 1 / 2]
   \<and> map matched_count (match 3 [''eggs'', ''basil''] [sample_recipe\<lparr>recipe_id := 2\<rparr>, sample_recipe,
         sample_recipe\<lparr>recipe_id := 3, Recipe.ingredients := [''Eggs'', ''Flour'']\<rparr>])
       = [2, 2, 1]
   \<and> 1 < length (match 3 [] [sample_recipe\<lparr>recipe_id := 2\<rparr>, sample_recipe])
   \<and> distinct (map recipe_id [sample_recipe\<lparr>recipe_id := 2\<rparr>, sample_recipe])
   \<and> map recipe_id (match 3 [] [sample_recipe\<lparr>recipe_id := 2\<rparr>, sample_recipe]) = [1, 2]
   \<and> map score (match 3 [] [sample_recipe\<lparr>recipe_id := 2\<rparr>, sample_recipe]) = [0, 0]
   \<and> recipe_id (match 3 [] [sample_recipe\<lparr>recipe_id := 2\<rparr>, sample_recipe] ! 0)
       < recipe_id (match 3 [] [sample_recipe\<lparr>recipe_id := 2\<rparr>, sample_recipe] ! 1)"
proof -
  let ?cat = "[sample_recipe\<lparr>recipe_id := 2\<rparr>, sample_recipe,
         sample_recipe\<lparr>recipe_id := 3, Recipe.ingredients := [''Eggs'', ''Flour'']\<rparr>]"
  let ?us = "[''eggs'', ''basil'']"
  let ?cat2 = "[sample_recipe\<lparr>recipe_id := 2\<rparr>, sample_recipe]"
  have all: "map (\<lambda>r. (recipe_id r, score r, matched_count r)) (match 3 ?us ?cat)
      = [(1, 1 / 2, 2), (2, 1 / 2, 2), (3, 1 / 2, 1)]"
    by code_simp
  have ids: "map recipe_id (match 3 ?us ?cat) = [1, 2, 3]"
    using arg_cong [OF all, of "map fst"] by (simp add: comp_def)
  have sc: "map score (match 3 ?us ?cat) = [1 / 2, 1 / 2, 1 / 2]"
    using arg_cong [OF all, of "map (fst \<circ> snd)"] by (simp add: comp_def)
  have mc: "map matched_count (match 3 ?us ?cat) = [2, 2, 1]"
    using arg_cong [OF all, of "map (snd \<circ> snd)"] by (simp add: comp_def)
  have len: "length (match 3 ?us ?cat) = 3"
    using arg_cong [OF ids, of length] by simp
  have all2: "map (\<lambda>r. (recipe_id r, score r, matched_count r)) (match 3 [] ?cat2)
      = [(1, 0, 0), (2, 0, 0)]"
    by code_simp
  have ids2: "map recipe_id (match 3 [] ?cat2) = [1, 2]"
    using arg_cong [OF all2, of "map fst"] by (simp add: comp_def)
  have sc2: "map score (match 3 [] ?cat2) = [0, 0]"
    using arg_cong [OF all2, of "map (fst \<circ> snd)"] by (simp add: comp_def)
  have mc2: "map matched_count (match 3 [] ?cat2) = [0, 0]"
    using arg_cong [OF all2, of "map (snd \<circ> snd)"] by (simp add: comp_def)
  have len2: "length (match 3 [] ?cat2) = 2"
    using arg_cong [OF ids2, of length] by simp
  have d2: "distinct (map recipe_id ?cat2)"
    by (simp add: sample_recipe_def)
  have lt: "(0::nat) < 1" by simp
  have l1: "1 < length (match 3 ?us ?cat)" by (simp add: len)
  have l2: "1 < length (match 3 [] ?cat2)" by (simp add: len2)
  have s0: "score (match 3 [] ?cat2 ! 0) = 0" "score (match 3 [] ?cat2 ! 1) = 0"
    using arg_cong [OF sc2, of "\<lambda>xs. xs ! 0"] arg_cong [OF sc2, of "\<lambda>xs. xs ! 1"] len2
    by simp_all
  have c0: "matched_count (match 3 [] ?cat2 ! 0) = 0" "matched_count (match 3 [] ?cat2 ! 1) = 0"
    using arg_cong [OF mc2, of "\<lambda>xs. xs ! 0"] arg_cong [OF mc2, of "\<lambda>xs. xs ! 1"] len2
    by simp_all
  have "recipe_id (match 3 [] ?cat2 ! 0) < recipe_id (match 3 [] ?cat2 ! 1)"
    using match_ranking [OF lt l2] d2 s0 c0 by simp
  then show ?thesis
    using match_ranking [OF lt l1] lt l1 l2 d2 ids sc mc ids2 sc2 by simp
qed

text \<open>
  C3. For a non-empty catalog and a fallback size of at least one, \<open>match\<close> returns a
  non-empty list for every user list. No recipe of score 0 is in the primary result, which
  is returned whenever it is not empty. When no recipe shares an ingredient with the user,
  and in particular for the empty user list, the result is the fallback: it depends on the
  catalog and the size only, and each of its recipes is a catalog recipe annotated with
  score 0. The list view therefore shows the grid of cards for every result of \<open>match\<close>,
  never its notice that no recipe was found.
\<close>

theorem match_nonempty:
  assumes "cat \<noteq> []" and "0 < n"
  shows "match n us cat \<noteq> []
    \<and> (\<forall>m \<in> set (primary us cat). score m \<noteq> 0)
    \<and> (primary us cat \<noteq> [] \<longrightarrow> match n us cat = primary us cat)
    \<and> ((\<forall>r \<in> set cat. matched us r = 0) \<longrightarrow> match n us cat = fallback n cat)
    \<and> match n [] cat = fallback n cat
    \<and> (\<forall>m \<in> set (fallback n cat). match_score m = Some 0
          \<and> (\<exists>r \<in> set cat. m = r\<lparr>match_score := Some 0, matched_ingredients := Some 0\<rparr>))
    \<and> length (fallback n cat) = min n (length cat)
    \<and> RecipesList (match n us cat) = Grid (match n us cat)"
proof -
  have "0 < length cat" using assms(1) by simp
  then have "0 < length (fallback n cat)"
    using assms(2) by (simp add: length_fallback)
  then have fb: "fallback n cat \<noteq> []" by auto
  then have a: "match n us cat \<noteq> []" by (simp add: match_def)
  have b: "\<forall>m \<in> set (primary us cat). score m \<noteq> 0"
    unfolding set_primary by auto
  have c: "primary us cat \<noteq> [] \<longrightarrow> match n us cat = primary us cat"
    by (simp add: match_def)
  have d: "(\<forall>r \<in> set cat. matched us r = 0) \<longrightarrow> match n us cat = fallback n cat"
    by (simp add: match_def primary_empty_iff matched_zero_score)
  have "\<forall>r \<in> set cat. matched [] r = 0"
    by (simp add: matched_def normalized_set_def)
  then have e: "match n [] cat = fallback n cat"
    by (simp add: match_def primary_empty_iff matched_zero_score)
  have f: "\<forall>m \<in> set (fallback n cat). match_score m = Some 0
          \<and> (\<exists>r \<in> set cat. m = r\<lparr>match_score := Some 0, matched_ingredients := Some 0\<rparr>)"
    using set_fallback [of _ n cat] by fastforce
  have g: "RecipesList (match n us cat) = Grid (match n us cat)"
    using a by (simp add: RecipesList_def)
  show ?thesis using a b c d e f g length_fallback [of n cat] by blast
qed

theorem match_nonempty_witness:
  "[sample_recipe] \<noteq> [] \<and> (0::nat) < 3
   \<and> matched [''kiwi''] sample_recipe = 0
   \<and> match 3 [''kiwi''] [sample_recipe]
       = [sample_recipe\<lparr>match_score := Some 0, matched_ingredients := Some 0\<rparr>]
   \<and> match 3 [] [sample_recipe]
       = [sample_recipe\<lparr>match_score := Some 0, matched_ingredients := Some 0\<rparr>]
   \<and> match 3 [''kiwi''] [sample_recipe] \<noteq> []"
proof -
  have k: "matched [''kiwi''] sample_recipe = 0" by code_simp
  have f: "fallback 3 [sample_recipe]
      = [sample_recipe\<lparr>match_score := Some 0, matched_ingredients := Some 0\<rparr>]"
    by (simp add: fallback_def)
  have "[sample_recipe] \<noteq> []" by simp
  moreover have "(0::nat) < 3" by simp
  ultimately show ?thesis
    using match_nonempty [of "[sample_recipe]" 3 "[''kiwi'']"] k f by simp
qed


section \<open>Properties of the ingredient extractor\<close>


lemma set_first_appearance: "set (first_appearance xs) = set xs"
  by (simp add: first_appearance_def)

lemma set_keyword_hits: "set (keyword_hits store rest) \<subseteq> snd ` set store"
  by (auto simp: keyword_hits_def)

lemma set_detect: "set (detect store cap) \<subseteq> snd ` set store"
  using set_keyword_hits [of store] by (auto simp: detect_def set_first_appearance)

lemma detect_empty_caption: "detect store [] = []"
  by (simp add: detect_def tokenize_def toLowerCase_def first_appearance_def)

text \<open>
  C4. With a non-empty fallback set of canonical names and a threshold of at least one,
  \<open>extract\<close> returns, for every caption, a non-empty list whose entries are all canonical
  names of the Caption Store. A caption that yields fewer ingredients than the threshold,
  and the empty caption in particular, gets the fallback set with the fallback confidence.
  The function has no error result: it returns for every string.
\<close>

theorem extract_nonempty_canonical:
  assumes "fallback_ingredients cfg \<noteq> []" and "0 < min_ingredients cfg"
    and "set (fallback_ingredients cfg) \<subseteq> snd ` set (caption_store cfg)"
  shows "fst (extract_ingredients cfg cap) \<noteq> []
    \<and> set (fst (extract_ingredients cfg cap)) \<subseteq> snd ` set (caption_store cfg)
    \<and> (length (detect (caption_store cfg) cap) < min_ingredients cfg
         \<longrightarrow> extract_ingredients cfg cap = (fallback_ingredients cfg, fallback_confidence cfg))
    \<and> extract_ingredients cfg [] = (fallback_ingredients cfg, fallback_confidence cfg)"
proof -
  let ?found = "detect (caption_store cfg) cap"
  have a: "fst (extract_ingredients cfg cap) \<noteq> []"
  proof (cases "length ?found < min_ingredients cfg")
    case True
    then show ?thesis using assms(1) by (simp add: extract_ingredients_def Let_def)
  next
    case False
    with assms(2) have "0 < length ?found" by linarith
    then have "?found \<noteq> []" by auto
    with False show ?thesis by (simp add: extract_ingredients_def Let_def)
  qed
  have b: "set (fst (extract_ingredients cfg cap)) \<subseteq> snd ` set (caption_store cfg)"
    using assms(3) set_detect [of "caption_store cfg" cap]
    by (simp add: extract_ingredients_def Let_def)
  have c: "length ?found < min_ingredients cfg
         \<longrightarrow> extract_ingredients cfg cap = (fallback_ingredients cfg, fallback_confidence cfg)"
    by (simp add: extract_ingredients_def Let_def)
  have d: "extract_ingredients cfg [] = (fallback_ingredients cfg, fallback_confidence cfg)"
    using assms(2) by (simp add: extract_ingredients_def detect_empty_caption Let_def)
  show ?thesis using a b c d by blast
qed

theorem extract_nonempty_canonical_witness:
  "fallback_ingredients sample_extractor \<noteq> [] \<and> 0 < min_ingredients sample_extractor
   \<and> set (fallback_ingredients sample_extractor) \<subseteq> snd ` set (caption_store sample_extractor)
   \<and> length (detect (caption_store sample_extractor) ''a white refrigerator with food'')
       < min_ingredients sample_extractor
   \<and> extract_ingredients sample_extractor ''a white refrigerator with food''
       = ([''Milk'', ''Eggs'', ''Cheese'', ''Tomatoes'', ''Onions''], 1 / 2)
   \<and> fst (extract_ingredients sample_extractor ''Milk, eggs and orange juice next to Cheese; more eggs'')
       = [''Milk'', ''Eggs'', ''Orange Juice'', ''Cheese'']"
proof -
  have h1: "fallback_ingredients sample_extractor \<noteq> []" by (simp add: sample_extractor_def)
  have h2: "0 < min_ingredients sample_extractor" by (simp add: sample_extractor_def)
  have h3: "set (fallback_ingredients sample_extractor) \<subseteq> snd ` set (caption_store sample_extractor)"
    by (simp add: sample_extractor_def)
  have d: "detect (caption_store sample_extractor) ''a white refrigerator with food'' = []"
    by code_simp
  have e: "fst (extract_ingredients sample_extractor ''Milk, eggs and orange juice next to Cheese; more eggs'')
       = [''Milk'', ''Eggs'', ''Orange Juice'', ''Cheese'']"
    by code_simp
  show ?thesis
    using extract_nonempty_canonical [OF h1 h2 h3, of "''a white refrigerator with food''"] h1 h2 h3 d e
    by (simp add: sample_extractor_def)
qed

end
